theory Spec2Isabelle
  imports Main
begin

section \<open>Python values used by the schedule bot\<close>

text \<open>
  A Python \<open>str\<close> is a sequence of Unicode code points; the session and online keywords of
  the bot are Cyrillic, so a string is modelled as the list of its code points.
  \<open>ascii\<close> turns an ASCII literal into such a string.
\<close>

type_synonym pystr = "nat list"

definition ascii :: "string \<Rightarrow> pystr" where
  "ascii s = map of_char s"

text \<open>
  \<open>str.lower()\<close> on the letters the keyword tables are written in: Basic Latin
  \<open>A..Z\<close> and the Cyrillic capitals U+0400..U+042F. Every other code point is left
  as it is (Python also lowers the capitals of other scripts, which none of the keywords
  is written in).
\<close>

definition lower_cp :: "nat \<Rightarrow> nat" where
  "lower_cp c =
     (if 65 \<le> c \<and> c \<le> 90 then c + 32
      else if 1040 \<le> c \<and> c \<le> 1071 then c + 32
      else if 1024 \<le> c \<and> c \<le> 1039 then c + 80
      else c)"

definition lower :: "pystr \<Rightarrow> pystr" where
  "lower s = map lower_cp s"

text \<open>\<open>kw in s\<close> on strings: \<open>kw\<close> occurs in \<open>s\<close> as a contiguous substring.\<close>

primrec py_in :: "pystr \<Rightarrow> pystr \<Rightarrow> bool" where
  "py_in kw [] = (kw = [])"
| "py_in kw (c # s) = (take (length kw) (c # s) = kw \<or> py_in kw s)"

text \<open>\<open>sep.join(parts)\<close>.\<close>

fun join :: "pystr \<Rightarrow> pystr list \<Rightarrow> pystr" where
  "join sep [] = []"
| "join sep [p] = p"
| "join sep (p # q # ps) = p @ sep @ join sep (q # ps)"

text \<open>
  A key of a JSON object fetched from the schedule API is absent, present with \<open>null\<close>,
  or present with a value. \<open>d.get(k)\<close> does not tell the first two apart,
  \<open>d.get(k, default)\<close> does.
\<close>

datatype 'a field = Absent | Null | Val 'a

text \<open>\<open>d.get(k) or dflt\<close> for a string or a list: empty values are falsy.\<close>

definition get_or :: "'a list field \<Rightarrow> 'a list \<Rightarrow> 'a list" where
  "get_or f dflt = (case f of Val v \<Rightarrow> (if v \<noteq> [] then v else dflt) | _ \<Rightarrow> dflt)"

text \<open>\<open>d.get(k, dflt)\<close>: the result is Python's \<open>None\<close> when the key holds \<open>null\<close>.\<close>

definition get_default :: "'a field \<Rightarrow> 'a \<Rightarrow> 'a option" where
  "get_default f dflt = (case f of Absent \<Rightarrow> Some dflt | Null \<Rightarrow> None | Val v \<Rightarrow> Some v)"

text \<open>What an f-string prints for an optional string.\<close>

definition fmt_str :: "pystr option \<Rightarrow> pystr" where
  "fmt_str v = (case v of None \<Rightarrow> ascii ''None'' | Some s \<Rightarrow> s)"

section \<open>Events\<close>

text \<open>
  The entries of \<open>EducatorIds\<close>/\<open>Educators\<close> and of \<open>EventLocations\<close>/\<open>Locations\<close> are
  JSON objects (with the two name keys the code reads), plain strings, or anything else
  (which both \<open>isinstance\<close> tests reject).
\<close>

datatype educator =
    EduDict (FullName: "pystr field") (Name: "pystr field")
  | EduStr pystr
  | EduOther

datatype location =
    LocDict (DisplayName: "pystr field") (Address: "pystr field")
  | LocStr pystr
  | LocOther

record event =
  DayDate :: "pystr field"
  Start :: "pystr field"
  End :: "pystr field"
  TimeIntervalString :: "pystr field"
  Subject :: "pystr field"
  Kind :: "pystr field"
  EducatorIds :: "educator list field"
  Educators :: "educator list field"
  EventLocations :: "location list field"
  Locations :: "location list field"
  OnlineNote :: "pystr field"

section \<open>ScheduleService\<close>

definition SESSION_EVENT_TYPES :: "pystr list" where
  "SESSION_EVENT_TYPES =
     [[1079, 1072, 1095, 1077, 1090],
      [1079, 1072, 1095, 1105, 1090],
      [1101, 1082, 1079, 1072, 1084, 1077, 1085],
      [1087, 1086, 1082, 1072, 1079, 32, 1088, 1072, 1073, 1086, 1090],
      ascii ''credit'', ascii ''exam'']"

definition is_session_event :: "event \<Rightarrow> bool" where
  "is_session_event ev =
     (let kind = lower (get_or (Kind ev) []);
          subject = lower (get_or (Subject ev) [])
      in list_ex (\<lambda>keyword. py_in keyword kind \<or> py_in keyword subject) SESSION_EVENT_TYPES)"

record normalized =
  date :: "pystr option"
  time_start :: pystr
  time_end :: pystr
  time_interval :: pystr
  subject :: "pystr option"
  kind :: "pystr option"
  educators :: "pystr list"
  locations :: "pystr list"
  is_online :: bool

fun educator_names :: "educator list \<Rightarrow> pystr list" where
  "educator_names [] = []"
| "educator_names (EduDict fn n # es) =
     (let name = get_or fn (get_or n [])
      in if name \<noteq> [] then name # educator_names es else educator_names es)"
| "educator_names (EduStr s # es) = s # educator_names es"
| "educator_names (EduOther # es) = educator_names es"

fun location_names :: "location list \<Rightarrow> pystr list" where
  "location_names [] = []"
| "location_names (LocDict dn a # ls) =
     (let display = get_or dn (get_or a [])
      in if display \<noteq> [] then display # location_names ls else location_names ls)"
| "location_names (LocStr s # ls) = s # location_names ls"
| "location_names (LocOther # ls) = location_names ls"

definition normalize_online_keywords :: "pystr list" where
  "normalize_online_keywords =
     [[1076, 1080, 1089, 1090, 1072, 1085, 1094, 1080, 1086, 1085, 1085],
      [1086, 1085, 1083, 1072, 1081, 1085],
      ascii ''online'',
      [1082, 1086, 1084, 1084, 1091, 1085, 1080, 1082, 1072, 1094, 1080, 1086, 1085, 1085, 1086]]"

definition normalize_event :: "event \<Rightarrow> normalized" where
  "normalize_event ev =
     (let time_start = get_or (Start ev) [];
          time_end = get_or (End ev) [];
          time_interval = get_or (TimeIntervalString ev) [];
          educators = educator_names (get_or (EducatorIds ev) (get_or (Educators ev) []));
          locations = location_names (get_or (EventLocations ev) (get_or (Locations ev) []));
          location_str = join (ascii '' '') locations;
          is_online = list_ex (\<lambda>kw. py_in kw (lower location_str)) normalize_online_keywords
      in \<lparr> date = get_default (DayDate ev) [],
           time_start = time_start,
           time_end = time_end,
           time_interval = time_interval,
           subject = get_default (Subject ev) [],
           kind = get_default (Kind ev) [],
           educators = educators,
           locations = locations,
           is_online = is_online \<rparr>)"

definition create_event_key :: "event \<Rightarrow> pystr" where
  "create_event_key ev =
     (let n = normalize_event ev;
          educators_str = join (ascii ''|'') (educators n);
          locations_str = join (ascii ''|'') (locations n)
      in fmt_str (date n) @ ascii ''|'' @ fmt_str (subject n) @ ascii ''|'' @ fmt_str (kind n)
           @ ascii ''|'' @ educators_str @ ascii ''|'' @ locations_str)"

text \<open>
  The dictionary comprehension \<open>{create_event_key(e): normalize_event(e) for e in events}\<close>
  stores the entries in list order, so a later event with the same key replaces the value
  of an earlier one.
\<close>

definition normalized_dict :: "event list \<Rightarrow> (pystr \<rightharpoonup> normalized)" where
  "normalized_dict events =
     fold (\<lambda>e m. m(create_event_key e \<mapsto> normalize_event e)) events Map.empty"

text \<open>
  The key sets are Python sets, whose iteration order is unspecified. The model iterates
  them in the order of \<open>remdups\<close> on the keys of the list; the theorems below do not
  depend on that order beyond what they state.
\<close>

definition event_keys :: "event list \<Rightarrow> pystr list" where
  "event_keys events = remdups (map create_event_key events)"

text \<open>
  The inner loops \<open>for e in events: if create_event_key(e) == key: ...; break\<close> pick the first
  event of the list that has the key.
\<close>

definition first_with_key :: "event list \<Rightarrow> pystr \<Rightarrow> event option" where
  "first_with_key events key = find (\<lambda>e. create_event_key e = key) events"

record change =
  old :: "event option"
  new :: "event option"
  changes :: "pystr list"

record diff =
  added :: "event list"
  removed :: "event list"
  changed :: "change list"

definition field_changes :: "normalized \<Rightarrow> normalized \<Rightarrow> pystr list" where
  "field_changes old_data new_data =
     (if time_start old_data \<noteq> time_start new_data \<or> time_end old_data \<noteq> time_end new_data
      then [ascii ''time''] else [])
     @ (if educators old_data \<noteq> educators new_data then [ascii ''educator''] else [])
     @ (if locations old_data \<noteq> locations new_data then [ascii ''location''] else [])
     @ (if is_online old_data \<noteq> is_online new_data then [ascii ''format''] else [])"

text \<open>
  \<open>old_normalized[key]\<close> raises \<open>KeyError\<close> on a missing key; the loop runs over keys of
  both dictionaries, and the model contributes nothing for a key that is not in one of
  them.
\<close>

definition changed_entry ::
  "event list \<Rightarrow> event list \<Rightarrow> pystr \<Rightarrow> change list" where
  "changed_entry old_events new_events key =
     (case (normalized_dict old_events key, normalized_dict new_events key) of
        (Some old_data, Some new_data) \<Rightarrow>
          (let chs = field_changes old_data new_data
           in if chs \<noteq> []
              then [\<lparr> old = first_with_key old_events key,
                      new = first_with_key new_events key,
                      changes = chs \<rparr>]
              else [])
      | _ \<Rightarrow> [])"

definition compare_schedules :: "event list \<Rightarrow> event list \<Rightarrow> diff" where
  "compare_schedules old_events new_events =
     (let old_keys = event_keys old_events;
          new_keys = event_keys new_events
      in \<lparr> added =
             List.map_filter (first_with_key new_events)
               (filter (\<lambda>k. k \<notin> set old_keys) new_keys),
           removed =
             List.map_filter (first_with_key old_events)
               (filter (\<lambda>k. k \<notin> set new_keys) old_keys),
           changed =
             concat (map (changed_entry old_events new_events)
               (filter (\<lambda>k. k \<in> set new_keys) old_keys)) \<rparr>)"

text \<open>
  The online check inside \<open>format_event_card\<close> (the message card shown to the user).
  \<open>str(loc)\<close> of a location that is a plain string is the string itself; for a JSON object
  it is Python's \<open>repr\<close> of the dictionary, taken as the parameter \<open>repr\<close>.
\<close>

definition card_online_keywords :: "pystr list" where
  "card_online_keywords =
     [[1076, 1080, 1089, 1090, 1072, 1085, 1094, 1080, 1086, 1085, 1085],
      [1086, 1085, 1083, 1072, 1081, 1085],
      ascii ''online'',
      [1082, 1086, 1084, 1084, 1091, 1085, 1080, 1082, 1072, 1094, 1080, 1086, 1085, 1085,
       1086, 45, 1080, 1085, 1092, 1086, 1088, 1084, 1072, 1094, 1080, 1086, 1085, 1085],
      [1044, 1054, 1058]]"

fun str_location :: "(location \<Rightarrow> pystr) \<Rightarrow> location \<Rightarrow> pystr" where
  "str_location repr (LocStr s) = s"
| "str_location repr loc = repr loc"

definition has_online_indicator :: "(location \<Rightarrow> pystr) \<Rightarrow> event \<Rightarrow> bool" where
  "has_online_indicator repr ev =
     (let locs = get_or (EventLocations ev) (get_or (Locations ev) []);
          online_note = get_or (OnlineNote ev) [];
          location_str = (if locs \<noteq> [] then join (ascii '' '') (map (str_location repr) locs)
                          else [])
      in list_ex (\<lambda>keyword. py_in (lower keyword) (lower location_str)
                            \<or> py_in (lower keyword) (lower online_note))
           card_online_keywords)"

section \<open>Database\<close>

text \<open>
  The three tables the change detection uses. \<open>schedule_snapshots\<close> has one row per
  \<open>(group_id, snapshot_type)\<close> (the \<open>UNIQUE\<close> constraint), holding the hash and the
  event list; \<open>sent_notifications\<close> has one row per \<open>(user_id, notification_hash)\<close>.
  Row ids and \<open>created_at\<close> stamps are left out; writes to the snapshot table are recorded
  in the trace of the world below. \<open>json.dumps\<close> followed by \<open>json.loads\<close> is the identity
  on event lists. The connection is open and every statement succeeds.
\<close>

record user =
  user_id :: int
  group_id :: "int option"
  group_name :: "pystr option"
  notifications_enabled :: int

record database =
  users :: "user list"
  schedule_snapshots :: "(int \<times> pystr) \<rightharpoonup> (pystr \<times> event list)"
  sent_notifications :: "(int \<times> pystr) list"

definition get_users_by_group :: "database \<Rightarrow> int \<Rightarrow> bool \<Rightarrow> user list" where
  "get_users_by_group d gid notifications_only =
     (if notifications_only
      then filter (\<lambda>u. group_id u = Some gid \<and> notifications_enabled u = 1) (users d)
      else filter (\<lambda>u. group_id u = Some gid) (users d))"

text \<open>
  \<open>_hash_schedule\<close> and \<open>_hash_notification\<close> are \<open>sha256\<close> of \<open>json.dumps\<close> with sorted
  keys; the composition of the two library calls is the parameter \<open>sha256_json\<close>.
\<close>

definition hash_schedule :: "(event list \<Rightarrow> pystr) \<Rightarrow> event list \<Rightarrow> pystr" where
  "hash_schedule sha256_json schedule_data = sha256_json schedule_data"

definition get_schedule_snapshot ::
  "database \<Rightarrow> int \<Rightarrow> pystr \<Rightarrow> (pystr \<times> event list) option" where
  "get_schedule_snapshot d gid snapshot_type = schedule_snapshots d (gid, snapshot_type)"

definition save_schedule_snapshot ::
  "(event list \<Rightarrow> pystr) \<Rightarrow> database \<Rightarrow> int \<Rightarrow> event list \<Rightarrow> pystr \<Rightarrow> pystr \<times> database" where
  "save_schedule_snapshot sha256_json d gid schedule_data snapshot_type =
     (let schedule_hash = hash_schedule sha256_json schedule_data
      in (schedule_hash,
          d\<lparr> schedule_snapshots :=
               (schedule_snapshots d)((gid, snapshot_type) \<mapsto> (schedule_hash, schedule_data)) \<rparr>))"

definition hash_notification :: "(int \<times> 'd \<Rightarrow> pystr) \<Rightarrow> int \<Rightarrow> 'd \<Rightarrow> pystr" where
  "hash_notification sha256_json uid notification_data = sha256_json (uid, notification_data)"

definition is_notification_sent ::
  "(int \<times> 'd \<Rightarrow> pystr) \<Rightarrow> database \<Rightarrow> int \<Rightarrow> 'd \<Rightarrow> bool" where
  "is_notification_sent sha256_json d uid notification_data =
     ((uid, hash_notification sha256_json uid notification_data) \<in> set (sent_notifications d))"

text \<open>\<open>INSERT OR IGNORE\<close>: a row that is already there is not inserted again.\<close>

definition mark_notification_sent ::
  "(int \<times> 'd \<Rightarrow> pystr) \<Rightarrow> database \<Rightarrow> int \<Rightarrow> 'd \<Rightarrow> database" where
  "mark_notification_sent sha256_json d uid notification_data =
     (let notification_hash = hash_notification sha256_json uid notification_data
      in if (uid, notification_hash) \<in> set (sent_notifications d) then d
         else d\<lparr> sent_notifications := sent_notifications d @ [(uid, notification_hash)] \<rparr>)"

section \<open>NotificationService\<close>

datatype py_error = SpbuApiError | TypeError | AttributeError

datatype send_outcome = Delivered | TelegramForbiddenError | TelegramBadRequest | OtherException

record notification_data =
  ntype :: pystr
  event_key :: pystr
  nchanges :: "pystr list option"

text \<open>
  What the services do to the outside is kept in a trace, oldest entry first: a call of
  \<open>notify_schedule_changes\<close>, a call of \<open>save_schedule_snapshot\<close>, and a call of
  \<open>send_notification\<close> with its user, its text and the outcome of \<open>bot.send_message\<close>.
  The entry of a send also notes the \<open>notification_data\<close> of the loop iteration that made it.
\<close>

datatype call =
    NotifyScheduleChanges int
  | SaveScheduleSnapshot int pystr
  | Send int pystr notification_data send_outcome

record world =
  db :: database
  trace :: "call list"

text \<open>
  \<open>send_notification\<close> returns \<open>True\<close> when \<open>bot.send_message\<close> returns and \<open>False\<close> on each
  of its three \<open>except\<close> branches.
\<close>

fun send_notification :: "send_outcome \<Rightarrow> bool" where
  "send_notification Delivered = True"
| "send_notification TelegramForbiddenError = False"
| "send_notification TelegramBadRequest = False"
| "send_notification OtherException = False"

text \<open>
  \<open>format_change_notification\<close> renders the text of a notification from the change type,
  the event, the changed fields and the group name. The text plays no part in what is
  sent to whom, so the renderer is the parameter \<open>fmt\<close>; it may raise.
\<close>

type_synonym renderer =
  "pystr \<Rightarrow> event \<Rightarrow> pystr list option \<Rightarrow> pystr option \<Rightarrow> py_error + pystr"

text \<open>The loops over \<open>changes["added"]\<close> and \<open>changes["removed"]\<close>.\<close>

fun build_events ::
  "renderer \<Rightarrow> pystr option \<Rightarrow> pystr \<Rightarrow> event list \<Rightarrow> py_error + (pystr \<times> notification_data) list" where
  "build_events fmt gname ty [] = Inr []"
| "build_events fmt gname ty (ev # evs) =
     (if is_session_event ev then build_events fmt gname ty evs
      else case fmt ty ev None gname of
             Inl err \<Rightarrow> Inl err
           | Inr notification_text \<Rightarrow>
               (case build_events fmt gname ty evs of
                  Inl err \<Rightarrow> Inl err
                | Inr ns \<Rightarrow>
                    Inr ((notification_text,
                          \<lparr> ntype = ty, event_key = create_event_key ev, nchanges = None \<rparr>) # ns)))"

text \<open>
  The loop over \<open>changes["changed"]\<close>. \<open>is_session_event(change["new"])\<close> on \<open>None\<close> raises
  \<open>AttributeError\<close>.
\<close>

fun build_changed ::
  "renderer \<Rightarrow> pystr option \<Rightarrow> change list \<Rightarrow> py_error + (pystr \<times> notification_data) list" where
  "build_changed fmt gname [] = Inr []"
| "build_changed fmt gname (c # cs) =
     (case new c of
        None \<Rightarrow> Inl AttributeError
      | Some ev \<Rightarrow>
          (if is_session_event ev then build_changed fmt gname cs
           else case fmt (ascii ''changed'') ev (Some (changes c)) gname of
                  Inl err \<Rightarrow> Inl err
                | Inr notification_text \<Rightarrow>
                    (case build_changed fmt gname cs of
                       Inl err \<Rightarrow> Inl err
                     | Inr ns \<Rightarrow>
                         Inr ((notification_text,
                               \<lparr> ntype = ascii ''changed'', event_key = create_event_key ev,
                                 nchanges = Some (changes c) \<rparr>) # ns))))"

definition build_notifications ::
  "renderer \<Rightarrow> pystr option \<Rightarrow> diff \<Rightarrow> py_error + (pystr \<times> notification_data) list" where
  "build_notifications fmt gname d =
     (case build_events fmt gname (ascii ''added'') (added d) of
        Inl err \<Rightarrow> Inl err
      | Inr a \<Rightarrow>
          (case build_events fmt gname (ascii ''removed'') (removed d) of
             Inl err \<Rightarrow> Inl err
           | Inr r \<Rightarrow>
               (case build_changed fmt gname (changed d) of
                  Inl err \<Rightarrow> Inl err
                | Inr c \<Rightarrow> Inr (a @ r @ c))))"

text \<open>
  The body of the inner sending loop, for one user and one notification. \<open>send_message\<close> is the
  messaging sink: the outcome of \<open>bot.send_message\<close> for a user and a text, which may depend
  on everything that happened before.
\<close>

type_synonym sink = "call list \<Rightarrow> int \<Rightarrow> pystr \<Rightarrow> send_outcome"

definition notify_one ::
  "(int \<times> notification_data \<Rightarrow> pystr) \<Rightarrow> sink \<Rightarrow> int \<Rightarrow> pystr \<times> notification_data
     \<Rightarrow> world \<times> nat \<Rightarrow> world \<times> nat" where
  "notify_one sha256_json send_message uid unit st =
     (let notification_text = fst unit; notification_data = snd unit;
          w = fst st; sent_count = snd st
      in if is_notification_sent sha256_json (db w) uid notification_data then (w, sent_count)
         else (let outcome = send_message (trace w) uid notification_text;
                   w1 = w\<lparr> trace := trace w @ [Send uid notification_text notification_data outcome] \<rparr>
               in if send_notification outcome
                  then (w1\<lparr> db := mark_notification_sent sha256_json (db w1) uid notification_data \<rparr>,
                        sent_count + 1)
                  else (w1, sent_count)))"

definition notify_all ::
  "(int \<times> notification_data \<Rightarrow> pystr) \<Rightarrow> sink \<Rightarrow> user list \<Rightarrow> (pystr \<times> notification_data) list
     \<Rightarrow> world \<times> nat \<Rightarrow> world \<times> nat" where
  "notify_all sha256_json send_message usrs notifications st =
     fold (\<lambda>u st1. fold (notify_one sha256_json send_message (user_id u)) notifications st1) usrs st"

definition notify_schedule_changes ::
  "(int \<times> notification_data \<Rightarrow> pystr) \<Rightarrow> renderer \<Rightarrow> sink \<Rightarrow> int \<Rightarrow> event list \<Rightarrow> event list
     \<Rightarrow> world \<Rightarrow> world \<times> (py_error + nat)" where
  "notify_schedule_changes sha256_json fmt send_message gid old_events new_events w =
     (let chs = compare_schedules old_events new_events
      in if added chs = [] \<and> removed chs = [] \<and> changed chs = [] then (w, Inr 0)
         else (case get_users_by_group (db w) gid True of
                 [] \<Rightarrow> (w, Inr 0)
               | u0 # us \<Rightarrow>
                   (case build_notifications fmt (group_name u0) chs of
                      Inl err \<Rightarrow> (w, Inl err)
                    | Inr notifications \<Rightarrow>
                        (let res = notify_all sha256_json send_message (u0 # us) notifications (w, 0)
                         in (fst res, Inr (snd res))))))"

section \<open>SchedulerService\<close>

definition regular :: pystr where
  "regular = ascii ''regular''"

definition store_snapshot :: "(event list \<Rightarrow> pystr) \<Rightarrow> int \<Rightarrow> event list \<Rightarrow> world \<Rightarrow> world" where
  "store_snapshot sha256_sched gid new_events w =
     w\<lparr> db := snd (save_schedule_snapshot sha256_sched (db w) gid new_events regular),
       trace := trace w @ [SaveScheduleSnapshot gid regular] \<rparr>"

text \<open>
  \<open>_check_group_schedule\<close>. \<open>api\<close> is \<open>api_client.get_group_schedule_regular\<close>: the fetched
  event list, or the exception it raises (which is raised again).
\<close>

definition check_group_schedule ::
  "(event list \<Rightarrow> pystr) \<Rightarrow> (int \<times> notification_data \<Rightarrow> pystr) \<Rightarrow> renderer \<Rightarrow> sink
     \<Rightarrow> (int \<Rightarrow> py_error + event list) \<Rightarrow> int \<Rightarrow> world \<Rightarrow> world \<times> (py_error + nat)" where
  "check_group_schedule sha256_sched sha256_json fmt send_message api gid w =
     (case api gid of
        Inl err \<Rightarrow> (w, Inl err)
      | Inr new_events \<Rightarrow>
          (case get_schedule_snapshot (db w) gid regular of
             None \<Rightarrow> (store_snapshot sha256_sched gid new_events w, Inr 0)
           | Some (old_hash, old_events) \<Rightarrow>
               (let new_hash = hash_schedule sha256_sched new_events
                in if old_hash = new_hash then (w, Inr 0)
                   else (let w1 = w\<lparr> trace := trace w @ [NotifyScheduleChanges gid] \<rparr>;
                             res = notify_schedule_changes sha256_json fmt send_message gid
                                     old_events new_events w1
                         in case snd res of
                              Inl err \<Rightarrow> (fst res, Inl err)
                            | Inr notifications_sent \<Rightarrow>
                                (store_snapshot sha256_sched gid new_events (fst res),
                                 Inr notifications_sent)))))"

section \<open>Reading the trace\<close>

text \<open>The trace entries added between an earlier world and a later one.\<close>

definition new_calls :: "world \<Rightarrow> world \<Rightarrow> call list" where
  "new_calls w w' = drop (length (trace w)) (trace w')"

fun is_delivered :: "call \<Rightarrow> bool" where
  "is_delivered (Send uid t nd outcome) = (outcome = Delivered)"
| "is_delivered c = False"

text \<open>
  How a run of the sending loop relates the world and the counter before it to those after
  it: the trace grows by sends of notifications in \<open>U\<close> to users for whom they were not
  recorded, the sent table grows by the delivered ones, the counter by their number, and
  the other tables stay as they are.
\<close>

definition extends ::
  "(int \<times> notification_data \<Rightarrow> pystr) \<Rightarrow> (pystr \<times> notification_data) set
     \<Rightarrow> world \<times> nat \<Rightarrow> world \<times> nat \<Rightarrow> bool" where
  "extends sha U st st' =
     (\<exists>cs. trace (fst st') = trace (fst st) @ cs
        \<and> (\<forall>c \<in> set cs. \<exists>uid t nd r. c = Send uid t nd r \<and> (t, nd) \<in> U
              \<and> \<not> is_notification_sent sha (db (fst st)) uid nd)
        \<and> set (sent_notifications (db (fst st'))) =
            set (sent_notifications (db (fst st)))
            \<union> {(uid, hash_notification sha uid nd) | uid t nd. Send uid t nd Delivered \<in> set cs}
        \<and> snd st' = snd st + length (filter is_delivered cs)
        \<and> users (db (fst st')) = users (db (fst st))
        \<and> schedule_snapshots (db (fst st')) = schedule_snapshots (db (fst st)))"

section \<open>Example data\<close>

definition example_lesson :: "pystr \<Rightarrow> pystr \<Rightarrow> event" where
  "example_lesson start knd =
     \<lparr> DayDate = Val (ascii ''2024-09-28''), Start = Val start, End = Absent,
       TimeIntervalString = Absent, Subject = Val (ascii ''Statistics''), Kind = Val knd,
       EducatorIds = Val [EduDict (Val (ascii ''Ivanov I.'')) Absent], Educators = Absent,
       EventLocations = Val [LocDict (Val (ascii ''Room 2'')) Absent], Locations = Absent,
       OnlineNote = Absent \<rparr>"

definition example_sha_sched :: "event list \<Rightarrow> pystr" where
  "example_sha_sched evs =
     join (ascii '';'') (map (\<lambda>e. create_event_key e @ ascii ''@'' @ get_or (Start e) []) evs)"

definition example_sha_json :: "int \<times> notification_data \<Rightarrow> pystr" where
  "example_sha_json x =
     [nat \<bar>fst x\<bar>] @ ascii ''/'' @ ntype (snd x) @ ascii ''/'' @ event_key (snd x) @ ascii ''/''
       @ (case nchanges (snd x) of None \<Rightarrow> [] | Some chs \<Rightarrow> join (ascii '','') chs)"

definition example_fmt :: renderer where
  "example_fmt ty ev chs gname = Inr (ty @ ascii '': '' @ create_event_key ev)"

definition example_sink :: sink where
  "example_sink history uid text = (if uid = 2 then TelegramForbiddenError else Delivered)"

definition example_user :: "int \<Rightarrow> int \<Rightarrow> user" where
  "example_user uid enabled =
     \<lparr> user_id = uid, group_id = Some 7, group_name = Some (ascii ''B01''),
       notifications_enabled = enabled \<rparr>"

definition example_db :: "event list \<Rightarrow> database" where
  "example_db stored =
     \<lparr> users = [example_user 1 1, example_user 2 1, example_user 3 0],
       schedule_snapshots = [(7, regular) \<mapsto> (example_sha_sched stored, stored)],
       sent_notifications = [] \<rparr>"

definition example_world :: "event list \<Rightarrow> world" where
  "example_world stored = \<lparr> db = example_db stored, trace = [] \<rparr>"

definition lesson_10 :: event where
  "lesson_10 = example_lesson (ascii ''10:00'') (ascii ''lecture'')"

definition lesson_12 :: event where
  "lesson_12 = example_lesson (ascii ''12:00'') (ascii ''lecture'')"

definition exam_10 :: event where
  "exam_10 = example_lesson (ascii ''10:00'') (ascii ''exam'')"

definition exam_12 :: event where
  "exam_12 = example_lesson (ascii ''12:00'') (ascii ''exam'')"



definition example_changed_text :: pystr where
  "example_changed_text = ascii ''changed'' @ ascii '': '' @ create_event_key lesson_12"

definition example_changed_data :: notification_data where
  "example_changed_data =
     \<lparr> ntype = ascii ''changed'', event_key = create_event_key lesson_12,
       nchanges = Some [ascii ''time''] \<rparr>"

section \<open>Event keys and the diff\<close>

lemma fold_dict_lookup:
  fixes f :: "event \<Rightarrow> (pystr \<rightharpoonup> normalized) \<Rightarrow> (pystr \<rightharpoonup> normalized)"
  assumes f: "\<And>e m. f e m = m(create_event_key e \<mapsto> normalize_event e)"
  shows "fold f events m0 key =
     (case filter (\<lambda>e. create_event_key e = key) events of
        [] \<Rightarrow> m0 key
      | x # xs \<Rightarrow> Some (normalize_event (last (x # xs))))"
proof (induction events arbitrary: m0)
  case Nil
  then show ?case by simp
next
  case (Cons e es)
  have step: "fold f (e # es) m0 key = fold f es (f e m0) key"
    by simp
  have upd: "f e m0 key = (if create_event_key e = key then Some (normalize_event e) else m0 key)"
    by (auto simp: f)
  show ?case
    unfolding step Cons.IH [of "f e m0"] upd
    by (cases "create_event_key e = key") (simp_all split: list.splits)
qed

lemma normalized_dict_lookup:
  "normalized_dict events key =
     (case filter (\<lambda>e. create_event_key e = key) events of
        [] \<Rightarrow> None
      | x # xs \<Rightarrow> Some (normalize_event (last (x # xs))))"
  unfolding normalized_dict_def by (subst fold_dict_lookup) simp_all

lemma first_with_key_lookup:
  "first_with_key events key =
     (case filter (\<lambda>e. create_event_key e = key) events of
        [] \<Rightarrow> None
      | x # xs \<Rightarrow> Some x)"
  unfolding first_with_key_def
  by (induction events) (auto split: list.splits)

lemma first_with_key_Some:
  "first_with_key events key = Some e \<Longrightarrow> e \<in> set events \<and> create_event_key e = key"
  unfolding first_with_key_def by (auto simp: find_Some_iff)

lemma first_with_key_None:
  "first_with_key events key = None \<longleftrightarrow> key \<notin> set (event_keys events)"
  unfolding first_with_key_def event_keys_def by (auto simp: find_None_iff)

lemma keys_map_filter_first:
  "set ks \<subseteq> set (event_keys events) \<Longrightarrow>
   map create_event_key (List.map_filter (first_with_key events) ks) = ks"
proof (induction ks)
  case Nil
  then show ?case by (simp add: List.map_filter_simps)
next
  case (Cons k ks)
  then obtain e where e: "first_with_key events k = Some e"
    using first_with_key_None [of events k] by (cases "first_with_key events k") auto
  with Cons show ?case
    by (auto simp: List.map_filter_simps dest: first_with_key_Some)
qed

lemma added_keys:
  "map create_event_key (added (compare_schedules A B)) =
     filter (\<lambda>k. k \<notin> set (event_keys A)) (event_keys B)"
  by (simp add: compare_schedules_def Let_def keys_map_filter_first)

lemma removed_keys:
  "map create_event_key (removed (compare_schedules A B)) =
     filter (\<lambda>k. k \<notin> set (event_keys B)) (event_keys A)"
  by (simp add: compare_schedules_def Let_def keys_map_filter_first)

text \<open>
  C7: the keys of the events added from \<open>A\<close> to \<open>B\<close> are the keys of the events removed
  from \<open>B\<close> to \<open>A\<close>, and the other way round; both are the keys that occur in one list
  and not in the other.
\<close>

theorem compare_schedules_swap:
  "set (map create_event_key (added (compare_schedules A B))) =
     set (map create_event_key (removed (compare_schedules B A)))
   \<and> set (map create_event_key (removed (compare_schedules A B))) =
     set (map create_event_key (added (compare_schedules B A)))
   \<and> set (map create_event_key (added (compare_schedules A B))) =
     create_event_key ` set B - create_event_key ` set A"
  by (auto simp: added_keys removed_keys event_keys_def)

lemma key_time_invariant:
  assumes "DayDate e1 = DayDate e2" "Subject e1 = Subject e2" "Kind e1 = Kind e2"
    "EducatorIds e1 = EducatorIds e2" "Educators e1 = Educators e2"
    "EventLocations e1 = EventLocations e2" "Locations e1 = Locations e2"
  shows "create_event_key e1 = create_event_key e2"
  using assms by (simp add: create_event_key_def normalize_event_def Let_def)

lemma compare_single:
  assumes k: "create_event_key e1 = create_event_key e2"
  shows "compare_schedules [e1] [e2] =
    \<lparr> added = [], removed = [],
      changed = (let chs = field_changes (normalize_event e1) (normalize_event e2)
                 in if chs \<noteq> [] then [\<lparr> old = Some e1, new = Some e2, changes = chs \<rparr>] else []) \<rparr>"
  using k
  by (simp add: compare_schedules_def event_keys_def changed_entry_def normalized_dict_def
      first_with_key_def List.map_filter_simps Let_def)



text \<open>The example lessons: two lectures and two exams that differ in their start time only.\<close>

lemma lesson_keys:
  "create_event_key lesson_12 = create_event_key lesson_10"
  "create_event_key exam_12 = create_event_key exam_10"
  by (simp_all add: create_event_key_def normalize_event_def example_lesson_def Let_def
      lesson_10_def lesson_12_def exam_10_def exam_12_def)

lemma lesson_fields:
  "field_changes (normalize_event lesson_10) (normalize_event lesson_12) = [ascii ''time'']"
  "field_changes (normalize_event lesson_12) (normalize_event lesson_10) = [ascii ''time'']"
  "field_changes (normalize_event exam_10) (normalize_event exam_12) = [ascii ''time'']"
  by (simp_all add: field_changes_def normalize_event_def example_lesson_def Let_def
      lesson_10_def lesson_12_def exam_10_def exam_12_def get_or_def ascii_def)


text \<open>
  The diff compares the start and end times only: two such events whose start and end
  times agree give the empty diff, whatever their \<open>TimeIntervalString\<close>.
\<close>

lemma interval_string_alone_is_no_change:
  assumes "DayDate e1 = DayDate e2" "Subject e1 = Subject e2" "Kind e1 = Kind e2"
    "EducatorIds e1 = EducatorIds e2" "Educators e1 = Educators e2"
    "EventLocations e1 = EventLocations e2" "Locations e1 = Locations e2"
    and "get_or (Start e1) [] = get_or (Start e2) []" "get_or (End e1) [] = get_or (End e2) []"
  shows "compare_schedules [e1] [e2] = \<lparr> added = [], removed = [], changed = [] \<rparr>"
proof -
  have k: "create_event_key e1 = create_event_key e2"
    using assms(1-7) by (rule key_time_invariant)
  have "field_changes (normalize_event e1) (normalize_event e2) = []"
    using assms by (simp add: field_changes_def normalize_event_def Let_def)
  then show ?thesis
    by (simp add: compare_single [OF k])
qed

text \<open>How an entry of the changed bucket is put together for a key.\<close>

lemma changed_entry_cases:
  assumes "c \<in> set (changed_entry A B k)"
  shows "filter (\<lambda>e. create_event_key e = k) A \<noteq> []
     \<and> filter (\<lambda>e. create_event_key e = k) B \<noteq> []
     \<and> old c = Some (hd (filter (\<lambda>e. create_event_key e = k) A))
     \<and> new c = Some (hd (filter (\<lambda>e. create_event_key e = k) B))
     \<and> changes c =
         field_changes (normalize_event (last (filter (\<lambda>e. create_event_key e = k) A)))
           (normalize_event (last (filter (\<lambda>e. create_event_key e = k) B)))"
  using assms
  by (auto simp: changed_entry_def normalized_dict_lookup first_with_key_lookup Let_def
      split: list.splits if_splits)

lemma first_with_key_hd:
  "first_with_key events k = Some e \<Longrightarrow>
     e = hd (filter (\<lambda>x. create_event_key x = create_event_key e) events)"
  by (frule first_with_key_Some) (auto simp: first_with_key_lookup split: list.splits)

text \<open>
  C9: every event in the added or removed bucket is the first event of its list with its key;
  a changed entry reports the first event with the key on each side, while its change list
  compares the normalized fields of the last event with the key on each side.
\<close>

text \<open>
  C9: every event in the added or removed bucket is the first event of its list with its key;
  a changed entry reports the first event with the key on each side, while its change list
  compares the normalized fields of the last event with the key on each side. In the
  witness the old list holds the lesson twice, at 10:00 and at 12:00: the entry reports a
  time change between two copies of the 10:00 lesson.
\<close>

theorem duplicate_keys_last_data_first_event:
  "(\<forall>e \<in> set (added (compare_schedules A B)).
      e = hd (filter (\<lambda>x. create_event_key x = create_event_key e) B))
   \<and> (\<forall>e \<in> set (removed (compare_schedules A B)).
      e = hd (filter (\<lambda>x. create_event_key x = create_event_key e) A))
   \<and> (\<forall>c \<in> set (changed (compare_schedules A B)). \<exists>k.
        filter (\<lambda>e. create_event_key e = k) A \<noteq> []
      \<and> filter (\<lambda>e. create_event_key e = k) B \<noteq> []
      \<and> old c = Some (hd (filter (\<lambda>e. create_event_key e = k) A))
      \<and> new c = Some (hd (filter (\<lambda>e. create_event_key e = k) B))
      \<and> changes c =
          field_changes (normalize_event (last (filter (\<lambda>e. create_event_key e = k) A)))
            (normalize_event (last (filter (\<lambda>e. create_event_key e = k) B))))"
proof (intro conjI ballI)
  fix e assume "e \<in> set (added (compare_schedules A B))"
  then show "e = hd (filter (\<lambda>x. create_event_key x = create_event_key e) B)"
    by (auto simp: compare_schedules_def Let_def List.map_filter_def dest: first_with_key_hd)
next
  fix e assume "e \<in> set (removed (compare_schedules A B))"
  then show "e = hd (filter (\<lambda>x. create_event_key x = create_event_key e) A)"
    by (auto simp: compare_schedules_def Let_def List.map_filter_def dest: first_with_key_hd)
next
  fix c assume "c \<in> set (changed (compare_schedules A B))"
  then obtain k where "c \<in> set (changed_entry A B k)"
    by (auto simp: compare_schedules_def Let_def)
  then show "\<exists>k.
        filter (\<lambda>e. create_event_key e = k) A \<noteq> []
      \<and> filter (\<lambda>e. create_event_key e = k) B \<noteq> []
      \<and> old c = Some (hd (filter (\<lambda>e. create_event_key e = k) A))
      \<and> new c = Some (hd (filter (\<lambda>e. create_event_key e = k) B))
      \<and> changes c =
          field_changes (normalize_event (last (filter (\<lambda>e. create_event_key e = k) A)))
            (normalize_event (last (filter (\<lambda>e. create_event_key e = k) B)))"
    using changed_entry_cases by blast
qed

lemma example_dup:
  "compare_schedules [lesson_10, lesson_12] [lesson_10] =
     \<lparr> added = [], removed = [],
       changed = [\<lparr> old = Some lesson_10, new = Some lesson_10, changes = [ascii ''time''] \<rparr>] \<rparr>"
  by (simp add: compare_schedules_def event_keys_def changed_entry_def normalized_dict_def
      first_with_key_def List.map_filter_simps Let_def lesson_keys lesson_fields)

theorem duplicate_keys_witness:
  "changed (compare_schedules [lesson_10, lesson_12] [lesson_10])
     = [\<lparr> old = Some lesson_10, new = Some lesson_10, changes = [ascii ''time''] \<rparr>]
   \<and> (\<exists>k. hd (filter (\<lambda>e. create_event_key e = k) [lesson_10, lesson_12]) = lesson_10
        \<and> last (filter (\<lambda>e. create_event_key e = k) [lesson_10, lesson_12]) = lesson_12
        \<and> [ascii ''time''] =
            field_changes
              (normalize_event (last (filter (\<lambda>e. create_event_key e = k) [lesson_10, lesson_12])))
              (normalize_event (last (filter (\<lambda>e. create_event_key e = k) [lesson_10]))))"
proof -
  let ?c = "\<lparr> old = Some lesson_10, new = Some lesson_10, changes = [ascii ''time''] \<rparr>"
  have ch: "changed (compare_schedules [lesson_10, lesson_12] [lesson_10]) = [?c]"
    by (simp add: example_dup)
  then have "?c \<in> set (changed (compare_schedules [lesson_10, lesson_12] [lesson_10]))"
    by simp
  with duplicate_keys_last_data_first_event [of "[lesson_10, lesson_12]" "[lesson_10]"]
  obtain k where k:
    "filter (\<lambda>e. create_event_key e = k) [lesson_10, lesson_12] \<noteq> []"
    "changes ?c =
       field_changes
         (normalize_event (last (filter (\<lambda>e. create_event_key e = k) [lesson_10, lesson_12])))
         (normalize_event (last (filter (\<lambda>e. create_event_key e = k) [lesson_10])))"
    by blast
  from k(1) have kk: "k = create_event_key lesson_10"
    by (auto simp: lesson_keys split: if_splits)
  have "hd (filter (\<lambda>e. create_event_key e = k) [lesson_10, lesson_12]) = lesson_10"
    "last (filter (\<lambda>e. create_event_key e = k) [lesson_10, lesson_12]) = lesson_12"
    using kk by (simp_all add: lesson_keys)
  with ch k(2) show ?thesis
    by (intro conjI exI [of _ k]) simp_all
qed

section \<open>The online flag\<close>

text \<open>
  C8: \<open>normalize_event\<close> reads neither the online note nor the abbreviation that the card
  of \<open>format_event_card\<close> checks. An event whose only online hint is its online note, or
  whose location is the abbreviation, gets \<open>is_online = False\<close>, while the card marks it
  as held online.
\<close>

theorem online_note_ignored_by_normalize_event:
  "is_online (normalize_event (lesson_10\<lparr> EventLocations := Absent,
        OnlineNote := Val (ascii ''online'') \<rparr>)) = False
   \<and> has_online_indicator repr (lesson_10\<lparr> EventLocations := Absent,
        OnlineNote := Val (ascii ''online'') \<rparr>) = True
   \<and> is_online (normalize_event (lesson_10\<lparr> EventLocations := Absent,
        Locations := Val [LocStr [1044, 1054, 1058]] \<rparr>)) = False
   \<and> has_online_indicator repr (lesson_10\<lparr> EventLocations := Absent,
        Locations := Val [LocStr [1044, 1054, 1058]] \<rparr>) = True"
  by (simp add: normalize_event_def has_online_indicator_def normalize_online_keywords_def
      card_online_keywords_def get_or_def Let_def ascii_def lower_def lower_cp_def
      lesson_10_def example_lesson_def)

section \<open>The sent table\<close>

text \<open>
  C10: after \<open>mark_notification_sent\<close> the notification counts as sent for the user, and
  marking it again leaves the database as it is.
\<close>

theorem mark_notification_sent_idempotent:
  "is_notification_sent sha (mark_notification_sent sha d uid nd) uid nd
   \<and> mark_notification_sent sha (mark_notification_sent sha d uid nd) uid nd =
       mark_notification_sent sha d uid nd"
  by (simp add: is_notification_sent_def mark_notification_sent_def Let_def)

section \<open>The sending loop\<close>

lemma extends_refl: "extends sha U st st"
  by (simp add: extends_def)

lemma extends_trans:
  assumes "extends sha U a b" "extends sha U b c"
  shows "extends sha U a c"
proof -
  from assms(1) obtain cs where cs:
    "trace (fst b) = trace (fst a) @ cs"
    "\<forall>c \<in> set cs. \<exists>uid t nd r. c = Send uid t nd r \<and> (t, nd) \<in> U
        \<and> \<not> is_notification_sent sha (db (fst a)) uid nd"
    "set (sent_notifications (db (fst b))) =
        set (sent_notifications (db (fst a)))
        \<union> {(uid, hash_notification sha uid nd) | uid t nd. Send uid t nd Delivered \<in> set cs}"
    "snd b = snd a + length (filter is_delivered cs)"
    "users (db (fst b)) = users (db (fst a))"
    "schedule_snapshots (db (fst b)) = schedule_snapshots (db (fst a))"
    unfolding extends_def by blast
  from assms(2) obtain ds where ds:
    "trace (fst c) = trace (fst b) @ ds"
    "\<forall>c \<in> set ds. \<exists>uid t nd r. c = Send uid t nd r \<and> (t, nd) \<in> U
        \<and> \<not> is_notification_sent sha (db (fst b)) uid nd"
    "set (sent_notifications (db (fst c))) =
        set (sent_notifications (db (fst b)))
        \<union> {(uid, hash_notification sha uid nd) | uid t nd. Send uid t nd Delivered \<in> set ds}"
    "snd c = snd b + length (filter is_delivered ds)"
    "users (db (fst c)) = users (db (fst b))"
    "schedule_snapshots (db (fst c)) = schedule_snapshots (db (fst b))"
    unfolding extends_def by blast
  have mono: "is_notification_sent sha (db (fst a)) uid nd
      \<Longrightarrow> is_notification_sent sha (db (fst b)) uid nd" for uid nd
    using cs(3) by (auto simp: is_notification_sent_def)
  have 1: "trace (fst c) = trace (fst a) @ (cs @ ds)"
    using cs(1) ds(1) by simp
  have 2: "\<forall>c \<in> set (cs @ ds). \<exists>uid t nd r. c = Send uid t nd r \<and> (t, nd) \<in> U
        \<and> \<not> is_notification_sent sha (db (fst a)) uid nd"
    using cs(2) ds(2) mono by fastforce
  have 3: "set (sent_notifications (db (fst c))) =
        set (sent_notifications (db (fst a)))
        \<union> {(uid, hash_notification sha uid nd) | uid t nd. Send uid t nd Delivered \<in> set (cs @ ds)}"
    unfolding ds(3) cs(3) by auto
  have 4: "snd c = snd a + length (filter is_delivered (cs @ ds))"
    using cs(4) ds(4) by simp
  show ?thesis
    unfolding extends_def
    using 1 2 3 4 cs(5,6) ds(5,6) by (intro exI [of _ "cs @ ds"]) simp
qed

lemma notify_one_recorded:
  "is_notification_sent sha (db w) uid nd \<Longrightarrow> notify_one sha sink uid (t, nd) (w, n) = (w, n)"
  by (simp add: notify_one_def)

lemma notify_one_fresh:
  assumes "\<not> is_notification_sent sha (db w) uid nd"
  shows "notify_one sha sink uid (t, nd) (w, n) =
    (if sink (trace w) uid t = Delivered
     then (\<lparr> db = (db w)\<lparr> sent_notifications :=
                 sent_notifications (db w) @ [(uid, hash_notification sha uid nd)] \<rparr>,
             trace = trace w @ [Send uid t nd Delivered] \<rparr>, n + 1)
     else (\<lparr> db = db w, trace = trace w @ [Send uid t nd (sink (trace w) uid t)] \<rparr>, n))"
  using assms
  by (cases "sink (trace w) uid t")
     (simp_all add: notify_one_def Let_def mark_notification_sent_def is_notification_sent_def)

lemma notify_one_extends:
  assumes "unit \<in> U"
  shows "extends sha U st (notify_one sha sink uid unit st)"
proof -
  obtain w n where st: "st = (w, n)" by (cases st)
  obtain t nd where unit: "unit = (t, nd)" by (cases unit)
  show ?thesis
  proof (cases "is_notification_sent sha (db w) uid nd")
    case True
    then show ?thesis
      by (simp add: st unit notify_one_recorded extends_refl)
  next
    case False
    show ?thesis
    proof (cases "sink (trace w) uid t = Delivered")
      case True
      with False assms show ?thesis
        unfolding st unit extends_def
        by (intro exI [of _ "[Send uid t nd Delivered]"]) (auto simp: notify_one_fresh)
    next
      case nd: False
      with False assms show ?thesis
        unfolding st unit extends_def
        by (intro exI [of _ "[Send uid t nd (sink (trace w) uid t)]"])
           (auto simp: notify_one_fresh)
    qed
  qed
qed

lemma fold_notify_one_extends:
  "set ns \<subseteq> U \<Longrightarrow> extends sha U st (fold (notify_one sha sink uid) ns st)"
proof (induction ns arbitrary: st)
  case Nil
  then show ?case by (simp add: extends_refl)
next
  case (Cons x ns)
  have "extends sha U st (notify_one sha sink uid x st)"
    using Cons.prems by (intro notify_one_extends) simp
  moreover have "extends sha U (notify_one sha sink uid x st)
      (fold (notify_one sha sink uid) ns (notify_one sha sink uid x st))"
    using Cons.prems by (intro Cons.IH) simp
  ultimately show ?case
    by (simp add: extends_trans)
qed

lemma notify_all_extends:
  "extends sha (set ns) st (notify_all sha sink usrs ns st)"
  unfolding notify_all_def
proof (induction usrs arbitrary: st)
  case Nil
  then show ?case by (simp add: extends_refl)
next
  case (Cons u usrs)
  have a: "extends sha (set ns) st (fold (notify_one sha sink (user_id u)) ns st)"
    by (rule fold_notify_one_extends) simp
  have b: "extends sha (set ns) (fold (notify_one sha sink (user_id u)) ns st)
      (fold (\<lambda>u st1. fold (notify_one sha sink (user_id u)) ns st1) usrs
         (fold (notify_one sha sink (user_id u)) ns st))"
    by (rule Cons.IH)
  show ?case
    using extends_trans [OF a b] by simp
qed

lemma notify_schedule_changes_extends:
  "\<exists>U. extends sha U (w, 0)
        (fst (notify_schedule_changes sha fmt sink gid old_events new_events w),
         case snd (notify_schedule_changes sha fmt sink gid old_events new_events w) of
           Inl err \<Rightarrow> 0 | Inr n \<Rightarrow> n)
     \<and> (\<forall>unit \<in> U. \<exists>gname ns.
           build_notifications fmt gname (compare_schedules old_events new_events) = Inr ns
           \<and> unit \<in> set ns)"
proof -
  let ?chs = "compare_schedules old_events new_events"
  show ?thesis
  proof (cases "added ?chs = [] \<and> removed ?chs = [] \<and> changed ?chs = []")
    case True
    then show ?thesis
      by (intro exI [of _ "{}"]) (simp add: notify_schedule_changes_def Let_def extends_refl)
  next
    case False
    show ?thesis
    proof (cases "get_users_by_group (db w) gid True")
      case Nil
      with False show ?thesis
        by (intro exI [of _ "{}"]) (simp add: notify_schedule_changes_def Let_def extends_refl)
    next
      case (Cons u0 us)
      show ?thesis
      proof (cases "build_notifications fmt (group_name u0) ?chs")
        case (Inl err)
        with False Cons show ?thesis
          by (intro exI [of _ "{}"]) (simp add: notify_schedule_changes_def Let_def extends_refl)
      next
        case (Inr ns)
        have "extends sha (set ns) (w, 0) (notify_all sha sink (u0 # us) ns (w, 0))"
          by (rule notify_all_extends)
        with False Cons Inr show ?thesis
          by (intro exI [of _ "set ns"]) (auto simp: notify_schedule_changes_def Let_def)
      qed
    qed
  qed
qed

lemma notify_run_facts:
  fixes sha :: "int \<times> notification_data \<Rightarrow> pystr"
  assumes w'_def: "w' = fst (notify_schedule_changes sha fmt sink gid old_events new_events w)"
  shows "trace w' = trace w @ new_calls w w'"
    and "Send uid t nd r \<in> set (new_calls w w') \<Longrightarrow> \<not> is_notification_sent sha (db w) uid nd"
    and "Send uid t nd Delivered \<in> set (new_calls w w') \<Longrightarrow> is_notification_sent sha (db w') uid nd"
    and "is_notification_sent sha (db w) uid nd \<Longrightarrow> is_notification_sent sha (db w') uid nd"
    and "c \<in> set (new_calls w w') \<Longrightarrow> \<exists>uid t nd r. c = Send uid t nd r"
    and "schedule_snapshots (db w') = schedule_snapshots (db w)"
proof -
  let ?res = "notify_schedule_changes sha fmt sink gid old_events new_events w"
  from notify_schedule_changes_extends [of sha w fmt sink gid old_events new_events]
  obtain U where "extends sha U (w, 0) (fst ?res, case snd ?res of Inl err \<Rightarrow> 0 | Inr n \<Rightarrow> n)"
    by blast
  then obtain cs where cs: "trace w' = trace w @ cs"
    "\<forall>c \<in> set cs. \<exists>uid t nd r. c = Send uid t nd r \<and> (t, nd) \<in> U
        \<and> \<not> is_notification_sent sha (db w) uid nd"
    "set (sent_notifications (db w')) =
        set (sent_notifications (db w))
        \<union> {(uid, hash_notification sha uid nd) | uid t nd. Send uid t nd Delivered \<in> set cs}"
    "schedule_snapshots (db w') = schedule_snapshots (db w)"
    unfolding extends_def w'_def by auto
  have nc: "new_calls w w' = cs"
    using cs(1) by (simp add: new_calls_def)
  show "trace w' = trace w @ new_calls w w'"
    using cs(1) nc by simp
  show "Send uid t nd r \<in> set (new_calls w w') \<Longrightarrow> \<not> is_notification_sent sha (db w) uid nd"
    using cs(2) nc by auto
  show "Send uid t nd Delivered \<in> set (new_calls w w') \<Longrightarrow> is_notification_sent sha (db w') uid nd"
    using cs(3) nc by (auto simp: is_notification_sent_def)
  show "is_notification_sent sha (db w) uid nd \<Longrightarrow> is_notification_sent sha (db w') uid nd"
    using cs(3) by (auto simp: is_notification_sent_def)
  show "c \<in> set (new_calls w w') \<Longrightarrow> \<exists>uid t nd r. c = Send uid t nd r"
    using cs(2) nc by auto
  show "schedule_snapshots (db w') = schedule_snapshots (db w)"
    by (rule cs(4))
qed








text \<open>The example run: user 1 receives the message, user 2 has blocked the sender.\<close>

lemma example_diff:
  "compare_schedules [lesson_10] [lesson_12] =
     \<lparr> added = [], removed = [],
       changed = [\<lparr> old = Some lesson_10, new = Some lesson_12, changes = [ascii ''time''] \<rparr>] \<rparr>"
  "compare_schedules [exam_10] [exam_12] =
     \<lparr> added = [], removed = [],
       changed = [\<lparr> old = Some exam_10, new = Some exam_12, changes = [ascii ''time''] \<rparr>] \<rparr>"
  by (simp_all add: compare_single lesson_keys lesson_fields)

lemma example_session:
  "\<not> is_session_event lesson_10" "\<not> is_session_event lesson_12"
  "is_session_event exam_10" "is_session_event exam_12"
  by (simp_all add: is_session_event_def example_lesson_def get_or_def Let_def ascii_def lower_def
      lower_cp_def SESSION_EVENT_TYPES_def lesson_10_def lesson_12_def exam_10_def exam_12_def)

lemma example_users:
  "get_users_by_group (example_db stored) 7 True = [example_user 1 1, example_user 2 1]"
  by (simp add: get_users_by_group_def example_db_def example_user_def)

lemma example_build:
  "build_notifications example_fmt gname
     \<lparr> added = [], removed = [],
       changed = [\<lparr> old = Some lesson_10, new = Some lesson_12, changes = [ascii ''time''] \<rparr>] \<rparr>
   = Inr [(example_changed_text, example_changed_data)]"
  by (simp add: build_notifications_def example_session example_fmt_def example_changed_text_def
      example_changed_data_def)

lemma example_run_first:
  "notify_schedule_changes example_sha_json example_fmt example_sink 7 [lesson_10] [lesson_12]
     \<lparr> db = example_db stored, trace = tr \<rparr> =
   (\<lparr> db = (example_db stored)\<lparr> sent_notifications :=
             [(1, hash_notification example_sha_json 1 example_changed_data)] \<rparr>,
      trace = tr @ [Send 1 example_changed_text example_changed_data Delivered,
                    Send 2 example_changed_text example_changed_data TelegramForbiddenError] \<rparr>,
    Inr 1)"
proof -
  have sent: "sent_notifications (example_db stored) = []"
    by (simp add: example_db_def)
  show ?thesis
    by (simp add: notify_schedule_changes_def example_diff example_users example_build
        notify_all_def notify_one_def is_notification_sent_def mark_notification_sent_def
        example_sink_def example_user_def Let_def sent)
qed




section \<open>Session events\<close>








section \<open>The per-group check\<close>

text \<open>
  C4: with no stored regular snapshot and a successful fetch, the check returns zero, the
  fetched events are the stored snapshot afterwards, and the only thing added to the trace
  is the call of \<open>save_schedule_snapshot\<close>: no dispatch and no send.
\<close>

theorem first_check_stores_snapshot_only:
  assumes "api gid = Inr new_events"
    and "get_schedule_snapshot (db w) gid regular = None"
  shows "snd (check_group_schedule sha_s sha_n fmt sink api gid w) = Inr 0
    \<and> get_schedule_snapshot (db (fst (check_group_schedule sha_s sha_n fmt sink api gid w))) gid regular
        = Some (hash_schedule sha_s new_events, new_events)
    \<and> new_calls w (fst (check_group_schedule sha_s sha_n fmt sink api gid w))
        = [SaveScheduleSnapshot gid regular]
    \<and> sent_notifications (db (fst (check_group_schedule sha_s sha_n fmt sink api gid w)))
        = sent_notifications (db w)"
  using assms
  by (simp add: check_group_schedule_def store_snapshot_def save_schedule_snapshot_def
      get_schedule_snapshot_def new_calls_def Let_def)

theorem first_check_stores_snapshot_only_witness:
  "get_schedule_snapshot (db (example_world [lesson_10])) 8 regular = None
   \<and> snd (check_group_schedule example_sha_sched example_sha_json example_fmt example_sink
        (\<lambda>g. Inr [lesson_12]) 8 (example_world [lesson_10])) = Inr 0
   \<and> get_schedule_snapshot
        (db (fst (check_group_schedule example_sha_sched example_sha_json example_fmt example_sink
           (\<lambda>g. Inr [lesson_12]) 8 (example_world [lesson_10])))) 8 regular
       = Some (hash_schedule example_sha_sched [lesson_12], [lesson_12])
   \<and> new_calls (example_world [lesson_10])
        (fst (check_group_schedule example_sha_sched example_sha_json example_fmt example_sink
           (\<lambda>g. Inr [lesson_12]) 8 (example_world [lesson_10])))
       = [SaveScheduleSnapshot 8 regular]"
  using first_check_stores_snapshot_only
    [of "\<lambda>g. Inr [lesson_12]" 8 "[lesson_12]" "example_world [lesson_10]"
        example_sha_sched example_sha_json example_fmt example_sink]
  by (simp add: get_schedule_snapshot_def example_world_def example_db_def)

text \<open>
  C5: when the fetched events hash to the stored hash, the check returns zero and the world
  (database and trace) is the one it started from.
\<close>

theorem unchanged_hash_touches_nothing:
  assumes "api gid = Inr new_events"
    and "get_schedule_snapshot (db w) gid regular = Some (old_hash, old_events)"
    and "hash_schedule sha_s new_events = old_hash"
  shows "check_group_schedule sha_s sha_n fmt sink api gid w = (w, Inr 0)"
  using assms by (simp add: check_group_schedule_def Let_def)

theorem unchanged_hash_touches_nothing_witness:
  "get_schedule_snapshot (db (example_world [lesson_10])) 7 regular
     = Some (hash_schedule example_sha_sched [lesson_10], [lesson_10])
   \<and> check_group_schedule example_sha_sched example_sha_json example_fmt example_sink
        (\<lambda>g. Inr [lesson_10]) 7 (example_world [lesson_10])
     = (example_world [lesson_10], Inr 0)"
  using unchanged_hash_touches_nothing
    [of "\<lambda>g. Inr [lesson_10]" 7 "[lesson_10]" "example_world [lesson_10]"
        "hash_schedule example_sha_sched [lesson_10]" "[lesson_10]"
        example_sha_sched example_sha_json example_fmt example_sink]
  by (simp add: get_schedule_snapshot_def example_world_def example_db_def hash_schedule_def)

text \<open>
  C6, as stated, fails: a successful fetch of the events that are already stored leaves the
  world as it is, and \<open>save_schedule_snapshot\<close> is not called.
\<close>

theorem snapshot_not_saved_on_equal_hash:
  "fst (check_group_schedule example_sha_sched example_sha_json example_fmt example_sink
          (\<lambda>g. Inr [lesson_10]) 7 (example_world [lesson_10]))
     = example_world [lesson_10]
   \<and> SaveScheduleSnapshot 7 regular \<notin>
       set (trace (fst (check_group_schedule example_sha_sched example_sha_json example_fmt
          example_sink (\<lambda>g. Inr [lesson_10]) 7 (example_world [lesson_10]))))"
  by (simp add: check_group_schedule_def get_schedule_snapshot_def example_world_def
      example_db_def hash_schedule_def Let_def)

text \<open>
  C6, amended: after a successful fetch the snapshot is saved, as the last step of the check,
  when no regular snapshot is stored, or when the stored hash differs from the hash of the
  fetched events and the dispatch returns; the stored snapshot is then the fetched events.
  When the hashes are equal nothing is written.
\<close>

theorem snapshot_saved_unless_hash_equal:
  assumes "api gid = Inr new_events"
  shows
  "(get_schedule_snapshot (db w) gid regular = None
      \<or> (\<exists>old_hash old_events n.
            get_schedule_snapshot (db w) gid regular = Some (old_hash, old_events)
          \<and> old_hash \<noteq> hash_schedule sha_s new_events
          \<and> snd (notify_schedule_changes sha_n fmt sink gid old_events new_events
                 (w\<lparr> trace := trace w @ [NotifyScheduleChanges gid] \<rparr>)) = Inr n)
     \<longrightarrow> (\<exists>cs. trace (fst (check_group_schedule sha_s sha_n fmt sink api gid w))
                 = trace w @ cs @ [SaveScheduleSnapshot gid regular])
        \<and> get_schedule_snapshot (db (fst (check_group_schedule sha_s sha_n fmt sink api gid w)))
             gid regular = Some (hash_schedule sha_s new_events, new_events))
   \<and> ((\<exists>old_events. get_schedule_snapshot (db w) gid regular
           = Some (hash_schedule sha_s new_events, old_events))
     \<longrightarrow> check_group_schedule sha_s sha_n fmt sink api gid w = (w, Inr 0))"
proof (intro conjI impI)
  assume "\<exists>old_events. get_schedule_snapshot (db w) gid regular
           = Some (hash_schedule sha_s new_events, old_events)"
  with assms show "check_group_schedule sha_s sha_n fmt sink api gid w = (w, Inr 0)"
    by (auto simp: check_group_schedule_def Let_def)
next
  let ?w' = "fst (check_group_schedule sha_s sha_n fmt sink api gid w)"
  assume h: "get_schedule_snapshot (db w) gid regular = None
      \<or> (\<exists>old_hash old_events n.
            get_schedule_snapshot (db w) gid regular = Some (old_hash, old_events)
          \<and> old_hash \<noteq> hash_schedule sha_s new_events
          \<and> snd (notify_schedule_changes sha_n fmt sink gid old_events new_events
                 (w\<lparr> trace := trace w @ [NotifyScheduleChanges gid] \<rparr>)) = Inr n)"
  have "(\<exists>cs. trace ?w' = trace w @ cs @ [SaveScheduleSnapshot gid regular])
     \<and> get_schedule_snapshot (db ?w') gid regular = Some (hash_schedule sha_s new_events, new_events)"
    using h
  proof
    assume "get_schedule_snapshot (db w) gid regular = None"
    with assms show ?thesis
      by (simp add: check_group_schedule_def store_snapshot_def save_schedule_snapshot_def
          get_schedule_snapshot_def Let_def)
  next
    assume "\<exists>old_hash old_events n.
            get_schedule_snapshot (db w) gid regular = Some (old_hash, old_events)
          \<and> old_hash \<noteq> hash_schedule sha_s new_events
          \<and> snd (notify_schedule_changes sha_n fmt sink gid old_events new_events
                 (w\<lparr> trace := trace w @ [NotifyScheduleChanges gid] \<rparr>)) = Inr n"
    then obtain old_hash old_events n where o:
      "get_schedule_snapshot (db w) gid regular = Some (old_hash, old_events)"
      "old_hash \<noteq> hash_schedule sha_s new_events"
      "snd (notify_schedule_changes sha_n fmt sink gid old_events new_events
                 (w\<lparr> trace := trace w @ [NotifyScheduleChanges gid] \<rparr>)) = Inr n"
      by blast
    let ?w1 = "w\<lparr> trace := trace w @ [NotifyScheduleChanges gid] \<rparr>"
    let ?w2 = "fst (notify_schedule_changes sha_n fmt sink gid old_events new_events ?w1)"
    have w': "?w' = store_snapshot sha_s gid new_events ?w2"
      using assms o by (simp add: check_group_schedule_def Let_def)
    have "trace ?w2 = trace ?w1 @ new_calls ?w1 ?w2"
      by (rule notify_run_facts(1) [OF refl])
    then have "trace ?w' = trace w @ (NotifyScheduleChanges gid # new_calls ?w1 ?w2)
        @ [SaveScheduleSnapshot gid regular]"
      unfolding w' by (simp add: store_snapshot_def)
    moreover have "get_schedule_snapshot (db ?w') gid regular
        = Some (hash_schedule sha_s new_events, new_events)"
      unfolding w'
      by (simp add: store_snapshot_def save_schedule_snapshot_def get_schedule_snapshot_def Let_def)
    ultimately show ?thesis by blast
  qed
  then show "\<exists>cs. trace ?w' = trace w @ cs @ [SaveScheduleSnapshot gid regular]"
    and "get_schedule_snapshot (db ?w') gid regular = Some (hash_schedule sha_s new_events, new_events)"
    by blast+
qed

theorem snapshot_saved_unless_hash_equal_witness:
  "get_schedule_snapshot (db (example_world [lesson_10])) 7 regular
     = Some (hash_schedule example_sha_sched [lesson_10], [lesson_10])
   \<and> hash_schedule example_sha_sched [lesson_10] \<noteq> hash_schedule example_sha_sched [lesson_12]
   \<and> snd (notify_schedule_changes example_sha_json example_fmt example_sink 7
            [lesson_10] [lesson_12]
            ((example_world [lesson_10])\<lparr> trace := trace (example_world [lesson_10])
                 @ [NotifyScheduleChanges 7] \<rparr>)) = Inr 1
   \<and> (\<exists>cs. trace (fst (check_group_schedule example_sha_sched example_sha_json example_fmt
                example_sink (\<lambda>g. Inr [lesson_12]) 7 (example_world [lesson_10])))
          = trace (example_world [lesson_10]) @ cs @ [SaveScheduleSnapshot 7 regular])
   \<and> get_schedule_snapshot
        (db (fst (check_group_schedule example_sha_sched example_sha_json example_fmt
                example_sink (\<lambda>g. Inr [lesson_12]) 7 (example_world [lesson_10])))) 7 regular
       = Some (hash_schedule example_sha_sched [lesson_12], [lesson_12])"
proof -
  let ?w0 = "example_world [lesson_10]"
  have snap: "get_schedule_snapshot (db ?w0) 7 regular
     = Some (hash_schedule example_sha_sched [lesson_10], [lesson_10])"
    by (simp add: get_schedule_snapshot_def example_world_def example_db_def hash_schedule_def)
  have differ: "hash_schedule example_sha_sched [lesson_10]
      \<noteq> hash_schedule example_sha_sched [lesson_12]"
    by (simp add: hash_schedule_def example_sha_sched_def lesson_keys lesson_10_def lesson_12_def
        example_lesson_def get_or_def ascii_def)
  have ret: "snd (notify_schedule_changes example_sha_json example_fmt example_sink 7
            [lesson_10] [lesson_12] (?w0\<lparr> trace := trace ?w0 @ [NotifyScheduleChanges 7] \<rparr>))
      = Inr 1"
    by (simp add: example_world_def example_run_first)
  from snap differ ret
    snapshot_saved_unless_hash_equal [where api = "\<lambda>g. Inr [lesson_12]" and gid = 7
      and new_events = "[lesson_12]" and w = ?w0 and sha_s = example_sha_sched
      and sha_n = example_sha_json and fmt = example_fmt and sink = example_sink]
  have "(\<exists>cs. trace (fst (check_group_schedule example_sha_sched example_sha_json example_fmt
                example_sink (\<lambda>g. Inr [lesson_12]) 7 ?w0))
          = trace ?w0 @ cs @ [SaveScheduleSnapshot 7 regular])
     \<and> get_schedule_snapshot
        (db (fst (check_group_schedule example_sha_sched example_sha_json example_fmt
                example_sink (\<lambda>g. Inr [lesson_12]) 7 ?w0))) 7 regular
       = Some (hash_schedule example_sha_sched [lesson_12], [lesson_12])"
    by blast
  with snap differ ret show ?thesis
    by (intro conjI) blast+
qed

end
